theory Spec2Isabelle
  imports Main "HOL-Library.AList"
begin

section \<open>Python values\<close>

text \<open>
  The waiver service answers with JSON, which \<open>response.json()\<close> turns into Python values:
  \<open>None\<close>, booleans, integers, strings, lists and dictionaries with string keys. The
  reconciliation adds \<open>datetime\<close> objects to them. A dictionary is an association list
  in insertion order, read with \<open>map_of\<close>.

  A naive \<open>datetime\<close> is the number of microseconds since 0001-01-01T00:00:00 of the
  proleptic Gregorian calendar, which is how \<open>datetime\<close> orders and adds. Strings are
  sequences of code points below 256. JSON numbers with a fractional part are outside the
  model: the waiver service reports \<open>received_at\<close> in whole seconds.
\<close>

type_synonym datetime = int

datatype pyval =
    PNone
  | PBool bool
  | PInt int
  | PStr string
  | PDatetime datetime
  | PList "pyval list"
  | PDict "(string \<times> pyval) list"

type_synonym dict = "(string \<times> pyval) list"

datatype error =
    KeyError string
  | TypeError
  | AttributeError
  | ValueError
  | OverflowError
  | AssertionError string

text \<open>\<open>d[k]\<close> on a dictionary: the value, or \<open>KeyError\<close>.\<close>

definition dict_item :: "dict \<Rightarrow> string \<Rightarrow> error + pyval" where
  "dict_item d k = (case map_of d k of None \<Rightarrow> Inl (KeyError k) | Some v \<Rightarrow> Inr v)"

text \<open>\<open>d.get(k)\<close> on a dictionary: the value, or \<open>None\<close>.\<close>

definition dict_get :: "dict \<Rightarrow> string \<Rightarrow> pyval" where
  "dict_get d k = (case map_of d k of None \<Rightarrow> PNone | Some v \<Rightarrow> v)"

text \<open>
  \<open>x[k]\<close> with a string key \<open>k\<close> on any value: a dictionary is looked up; a list and a
  string want integer indices, and the other values cannot be subscripted at all
  (\<open>TypeError\<close> each time).
\<close>

fun subscript :: "pyval \<Rightarrow> string \<Rightarrow> error + pyval" where
  "subscript (PDict d) k = dict_item d k"
| "subscript _ k = Inl TypeError"

text \<open>
  \<open>for x in v\<close>: a list yields its elements, a dictionary its keys, a string its
  characters as one-character strings; nothing else can be iterated.
\<close>

fun iterate :: "pyval \<Rightarrow> error + pyval list" where
  "iterate (PList xs) = Inr xs"
| "iterate (PDict d) = Inr (map (\<lambda>kv. PStr (fst kv)) d)"
| "iterate (PStr s) = Inr (map (\<lambda>c. PStr [c]) s)"
| "iterate _ = Inl TypeError"

text \<open>Truth value of a Python value, as \<open>if v:\<close> and \<open>not v\<close> take it.\<close>

fun truthy :: "pyval \<Rightarrow> bool" where
  "truthy PNone = False"
| "truthy (PBool b) = b"
| "truthy (PInt i) = (i \<noteq> 0)"
| "truthy (PStr s) = (s \<noteq> [])"
| "truthy (PDatetime t) = True"
| "truthy (PList xs) = (xs \<noteq> [])"
| "truthy (PDict d) = (d \<noteq> [])"

text \<open>
  \<open>str.lower()\<close> on code points below 256: the letters \<open>A\<close> to \<open>Z\<close> and the Latin-1
  capitals (192 to 222 without the multiplication sign 215) move up by 32.
\<close>

definition lower_char :: "char \<Rightarrow> char" where
  "lower_char c =
     (let n = (of_char c :: nat)
      in if (65 \<le> n \<and> n \<le> 90) \<or> (192 \<le> n \<and> n \<le> 222 \<and> n \<noteq> 215)
         then char_of (n + 32) else c)"

definition lower :: "string \<Rightarrow> string" where
  "lower s = map lower_char s"

section \<open>Dates\<close>

text \<open>
  \<open>WAIVER_VALIDITY = 365\<close>, the validity period in days, and the range of \<open>datetime\<close>:
  0001-01-01T00:00:00 to 9999-12-31T23:59:59.999999.
\<close>

definition WAIVER_VALIDITY :: int where
  "WAIVER_VALIDITY = 365"

definition US_PER_DAY :: int where
  "US_PER_DAY = 86400 * 1000000"

definition DATETIME_MAX :: datetime where
  "DATETIME_MAX = 3652059 * US_PER_DAY - 1"

text \<open>1970-01-01T00:00:00 is day 719162 after 0001-01-01.\<close>

definition EPOCH_SECONDS :: int where
  "EPOCH_SECONDS = 719162 * 86400"

text \<open>
  \<open>datetime.fromtimestamp(v)\<close> takes a number (a boolean counts as 0 or 1) and answers
  the naive local time of the host. The host's zone rule is the parameter \<open>tz\<close>: the
  offset from UTC, in seconds, that applies at a given POSIX timestamp. A time outside
  the years 1 to 9999 is refused; which exception the platform raises for it varies, and
  \<open>ValueError\<close> stands for all of them.
\<close>

fun timestamp_of :: "pyval \<Rightarrow> int option" where
  "timestamp_of (PInt t) = Some t"
| "timestamp_of (PBool b) = Some (if b then 1 else 0)"
| "timestamp_of _ = None"

definition fromtimestamp :: "(int \<Rightarrow> int) \<Rightarrow> pyval \<Rightarrow> error + datetime" where
  "fromtimestamp tz v =
     (case timestamp_of v of
        None \<Rightarrow> Inl TypeError
      | Some t \<Rightarrow>
          (let us = (EPOCH_SECONDS + t + tz t) * 1000000
           in if 0 \<le> us \<and> us \<le> DATETIME_MAX then Inr us else Inl ValueError))"

text \<open>\<open>d + timedelta(days=n)\<close>: \<open>OverflowError\<close> when the sum leaves the range.\<close>

definition add_days :: "datetime \<Rightarrow> int \<Rightarrow> error + datetime" where
  "add_days d n =
     (let r = d + n * US_PER_DAY
      in if 0 \<le> r \<and> r \<le> DATETIME_MAX then Inr r else Inl OverflowError)"

section \<open>Reconciliation\<close>

text \<open>
  \<open>Registrant = namedtuple("Registrant", ["email", "first_name", "last_name"])\<close>, and the
  entries \<open>{'eventbrite_data': reg, 'waiverforever_data': json_data}\<close> that the waiver
  lookup hands to the reconciliation.
\<close>

record Registrant =
  email :: string
  first_name :: string
  last_name :: string

record registration =
  eventbrite_data :: Registrant
  waiverforever_data :: pyval

text \<open>
  The loop over the fields of one waiver (\<open>for field in waiver['data']\<close>), threading
  \<open>waiverforever_email\<close>.
\<close>

fun scan_fields :: "pyval list \<Rightarrow> pyval \<Rightarrow> error + pyval" where
  "scan_fields [] waiverforever_email = Inr waiverforever_email"
| "scan_fields (field # rest) waiverforever_email =
     (case subscript field ''type'' of
        Inl e \<Rightarrow> Inl e
      | Inr ty \<Rightarrow>
          if ty = PStr ''email_field''
          then (case subscript field ''value'' of
                  Inl e \<Rightarrow> Inl e
                | Inr v \<Rightarrow> scan_fields rest v)
          else scan_fields rest waiverforever_email)"

text \<open>The three variables of one registrant's scan.\<close>

record scan =
  dates :: "datetime list"
  is_current :: bool
  waiverforever_email :: pyval

text \<open>The loop over the waivers of one registrant.\<close>

fun scan_waivers :: "(int \<Rightarrow> int) \<Rightarrow> datetime \<Rightarrow> pyval list \<Rightarrow> scan \<Rightarrow> error + scan" where
  "scan_waivers tz end_date [] st = Inr st"
| "scan_waivers tz end_date (waiver # waivers) st =
     (case subscript waiver ''received_at'' of
        Inl e \<Rightarrow> Inl e
      | Inr waiver_unix_date \<Rightarrow>
     (case fromtimestamp tz waiver_unix_date of
        Inl e \<Rightarrow> Inl e
      | Inr waiver_date \<Rightarrow>
     (case add_days waiver_date WAIVER_VALIDITY of
        Inl e \<Rightarrow> Inl e
      | Inr expiry \<Rightarrow>
     (case subscript waiver ''data'' of
        Inl e \<Rightarrow> Inl e
      | Inr data \<Rightarrow>
     (case iterate data of
        Inl e \<Rightarrow> Inl e
      | Inr flds \<Rightarrow>
     (case scan_fields flds (waiverforever_email st) of
        Inl e \<Rightarrow> Inl e
      | Inr em \<Rightarrow>
          scan_waivers tz end_date waivers
            \<lparr>dates = dates st @ [waiver_date],
             is_current = (if expiry > end_date then True else is_current st),
             waiverforever_email = em\<rparr>))))))"

text \<open>\<open>reg['waiverforever_data']['data']['waivers']\<close>, made ready for the loop.\<close>

definition waivers_of :: "registration \<Rightarrow> error + pyval list" where
  "waivers_of reg =
     (case subscript (waiverforever_data reg) ''data'' of
        Inl e \<Rightarrow> Inl e
      | Inr d \<Rightarrow>
     (case subscript d ''waivers'' of
        Inl e \<Rightarrow> Inl e
      | Inr ws \<Rightarrow> iterate ws))"

text \<open>One registrant's scan: the three variables initialised, then the loop.\<close>

definition scan_registration :: "(int \<Rightarrow> int) \<Rightarrow> datetime \<Rightarrow> registration \<Rightarrow> error + scan" where
  "scan_registration tz end_date reg =
     (case waivers_of reg of
        Inl e \<Rightarrow> Inl e
      | Inr waivers \<Rightarrow>
          scan_waivers tz end_date waivers
            \<lparr>dates = [], is_current = False, waiverforever_email = PStr ''''\<rparr>)"

text \<open>
  The \<open>assert\<close> after the scan. A value that is not a string is not equal to \<open>''\<close> and
  has no \<open>lower\<close>, so the condition itself raises \<open>AttributeError\<close>. Assertions
  are enabled, as they are when the script is run without \<open>-O\<close>.
\<close>

definition check_email :: "pyval \<Rightarrow> string \<Rightarrow> error + unit" where
  "check_email wf_email eb_email =
     (case wf_email of
        PStr s \<Rightarrow>
          if s = '''' \<or> lower s = lower eb_email then Inr ()
          else Inl (AssertionError
                 (''found a non-matching email field. WF: '' @ s @ '' EB: '' @ eb_email))
      | _ \<Rightarrow> Inl AttributeError)"

text \<open>The body of the loop over the registrations: the dictionary to append, or the error.\<close>

definition process_registration :: "(int \<Rightarrow> int) \<Rightarrow> datetime \<Rightarrow> registration \<Rightarrow> error + dict" where
  "process_registration tz end_date reg =
     (case scan_registration tz end_date reg of
        Inl e \<Rightarrow> Inl e
      | Inr st \<Rightarrow>
     (case check_email (waiverforever_email st) (email (eventbrite_data reg)) of
        Inl e \<Rightarrow> Inl e
      | Inr _ \<Rightarrow>
          Inr [(''wf_email'', waiverforever_email st),
               (''eb_email'', PStr (email (eventbrite_data reg))),
               (''eb_first_name'', PStr (first_name (eventbrite_data reg))),
               (''eb_last_name'', PStr (last_name (eventbrite_data reg))),
               (''dates'', PList (map PDatetime (dates st))),
               (''is_current'', PBool (is_current st))]))"

fun process_loop :: "(int \<Rightarrow> int) \<Rightarrow> datetime \<Rightarrow> registration list \<Rightarrow> dict list \<Rightarrow> error + dict list" where
  "process_loop tz end_date [] processed_data = Inr processed_data"
| "process_loop tz end_date (reg # regs) processed_data =
     (case process_registration tz end_date reg of
        Inl e \<Rightarrow> Inl e
      | Inr item \<Rightarrow> process_loop tz end_date regs (processed_data @ [item]))"

text \<open>
  \<open>process_waiver_data(registration_data, end_date)\<close>. The closing \<open>logger.info\<close> writes
  the result to the log sinks and has no part in the value returned.
\<close>

definition process_waiver_data :: "(int \<Rightarrow> int) \<Rightarrow> registration list \<Rightarrow> datetime \<Rightarrow> error + dict list" where
  "process_waiver_data tz registration_data end_date =
     process_loop tz end_date registration_data []"

section \<open>Console report\<close>

text \<open>\<open>str(n)\<close> for an integer: its decimal digits, with a minus sign below zero.\<close>

fun str_nat :: "nat \<Rightarrow> string" where
  "str_nat n =
     (if n < 10 then [char_of (48 + n)]
      else str_nat (n div 10) @ [char_of (48 + n mod 10)])"

declare str_nat.simps [simp del]

definition str_int :: "int \<Rightarrow> string" where
  "str_int i = (if i < 0 then CHR ''-'' # str_nat (nat (- i)) else str_nat (nat i))"

text \<open>A string padded with spaces on the right up to a width; a longer one is kept whole.\<close>

definition ljust :: "nat \<Rightarrow> string \<Rightarrow> string" where
  "ljust width s = s @ replicate (width - length s) CHR '' ''"

text \<open>
  The replacement field \<open>{v:<width}\<close> of an f-string, that is \<open>format(v, '<width')\<close>: a
  string and an integer are padded on the right, a boolean is formatted as the integer it
  is, a \<open>datetime\<close> hands the format to \<open>strftime\<close>, which finds no directive to expand
  in it, and \<open>None\<close>, lists and dictionaries accept no format at all.
\<close>

fun format_left :: "nat \<Rightarrow> pyval \<Rightarrow> error + string" where
  "format_left width (PStr s) = Inr (ljust width s)"
| "format_left width (PInt i) = Inr (ljust width (str_int i))"
| "format_left width (PBool b) = Inr (ljust width (if b then ''1'' else ''0''))"
| "format_left width (PDatetime t) = Inr (CHR ''<'' # str_nat width)"
| "format_left width _ = Inl TypeError"

text \<open>\<open>print(s)\<close> on the text written to standard output so far.\<close>

definition print :: "string \<Rightarrow> string \<Rightarrow> string" where
  "print s stdout = stdout @ s @ [CHR 0x0A]"

text \<open>
  One row of the table, \<open>{waiver['eb_email']:<30} {waiver['eb_first_name']:<15}
  {waiver['eb_last_name']:<15}\<close>: the three fields are read and formatted from left to
  right.
\<close>

definition row_text :: "dict \<Rightarrow> error + string" where
  "row_text waiver =
     (case dict_item waiver ''eb_email'' of
        Inl e \<Rightarrow> Inl e
      | Inr v1 \<Rightarrow>
     (case format_left 30 v1 of
        Inl e \<Rightarrow> Inl e
      | Inr s1 \<Rightarrow>
     (case dict_item waiver ''eb_first_name'' of
        Inl e \<Rightarrow> Inl e
      | Inr v2 \<Rightarrow>
     (case format_left 15 v2 of
        Inl e \<Rightarrow> Inl e
      | Inr s2 \<Rightarrow>
     (case dict_item waiver ''eb_last_name'' of
        Inl e \<Rightarrow> Inl e
      | Inr v3 \<Rightarrow>
     (case format_left 15 v3 of
        Inl e \<Rightarrow> Inl e
      | Inr s3 \<Rightarrow> Inr (s1 @ '' '' @ s2 @ '' '' @ s3)))))))"

text \<open>
  The loop that prints the table. An error leaves on standard output what was printed
  before it.
\<close>

fun report_rows :: "dict list \<Rightarrow> string \<Rightarrow> (error + unit) \<times> string" where
  "report_rows [] stdout = (Inr (), stdout)"
| "report_rows (waiver # rest) stdout =
     (if \<not> truthy (dict_get waiver ''is_current'')
      then (case row_text waiver of
              Inl e \<Rightarrow> (Inl e, stdout)
            | Inr line \<Rightarrow> report_rows rest (print line stdout))
      else report_rows rest stdout)"

definition report_to_console :: "dict list \<Rightarrow> string \<Rightarrow> (error + unit) \<times> string" where
  "report_to_console data stdout =
     (let waiver_invalid_count =
            (\<Sum>item \<leftarrow> filter (\<lambda>item. \<not> truthy (dict_get item ''is_current'')) data. (1::int));
          stdout1 = print ([CHR 0x0A] @ ''Found '' @ str_int waiver_invalid_count
                      @ '' invalid or missing waivers out of ''
                      @ str_int (int (length data)) @ '' waivers.'') stdout;
          stdout2 = print ''Invalid or missing waivers:'' stdout1;
          stdout3 = print (ljust 30 ''Email'' @ '' '' @ ljust 15 ''Firstname'' @ '' ''
                      @ ljust 15 ''Lastname'') stdout2
      in report_rows data stdout3)"

section \<open>Preparing the dates for the report\<close>

text \<open>
  \<open>prepare_data_for_reporting\<close> assigns to a key of dictionaries that its caller still
  holds, so the dictionaries live in a store, and the list \<open>data\<close> holds their addresses.
  \<open>date.strftime('%-m/%-d/%Y')\<close> is the parameter \<open>strftime\<close>: what it prints is up to
  the C library of the host.
\<close>

type_synonym addr = nat

type_synonym store = "addr \<Rightarrow> dict"

text \<open>
  The list comprehension \<open>[date.strftime(...) for date in ...]\<close>: only a \<open>datetime\<close> has
  the method.
\<close>

fun format_dates :: "(datetime \<Rightarrow> string) \<Rightarrow> pyval list \<Rightarrow> error + pyval list" where
  "format_dates strftime [] = Inr []"
| "format_dates strftime (PDatetime t # ds) =
     (case format_dates strftime ds of
        Inl e \<Rightarrow> Inl e
      | Inr strs \<Rightarrow> Inr (PStr (strftime t) # strs))"
| "format_dates strftime (_ # ds) = Inl AttributeError"

text \<open>The body of the loop, on the dictionary an item refers to.\<close>

definition prepare_item :: "(datetime \<Rightarrow> string) \<Rightarrow> dict \<Rightarrow> error + dict" where
  "prepare_item strftime item =
     (if truthy (dict_get item ''dates'')
      then (case iterate (dict_get item ''dates'') of
              Inl e \<Rightarrow> Inl e
            | Inr ds \<Rightarrow>
           (case format_dates strftime ds of
              Inl e \<Rightarrow> Inl e
            | Inr strs \<Rightarrow> Inr (AList.update ''dates'' (PList strs) item)))
      else Inr item)"

fun prepare_loop :: "(datetime \<Rightarrow> string) \<Rightarrow> addr list \<Rightarrow> store \<Rightarrow> (error + unit) \<times> store" where
  "prepare_loop strftime [] st = (Inr (), st)"
| "prepare_loop strftime (item # rest) st =
     (case prepare_item strftime (st item) of
        Inl e \<Rightarrow> (Inl e, st)
      | Inr d \<Rightarrow> prepare_loop strftime rest (st(item := d)))"

definition prepare_data_for_reporting ::
    "(datetime \<Rightarrow> string) \<Rightarrow> addr list \<Rightarrow> store \<Rightarrow> (error + addr list) \<times> store" where
  "prepare_data_for_reporting strftime data st =
     (case prepare_loop strftime data st of
        (Inl e, st') \<Rightarrow> (Inl e, st')
      | (Inr _, st') \<Rightarrow> (Inr data, st'))"

section \<open>Vocabulary of the specification\<close>

text \<open>
  What the specification speaks of, said over the input rather than over the run: the
  waivers of a registrant's search result in the order returned, the date a waiver was
  received, whether a waiver is current, and the fields of a waiver.
\<close>

definition waivers_list :: "registration \<Rightarrow> pyval list" where
  "waivers_list reg = (case waivers_of reg of Inl e \<Rightarrow> [] | Inr ws \<Rightarrow> ws)"

definition waiver_timestamp :: "pyval \<Rightarrow> int option" where
  "waiver_timestamp w =
     (case subscript w ''received_at'' of Inl e \<Rightarrow> None | Inr v \<Rightarrow> timestamp_of v)"

definition waiver_date :: "(int \<Rightarrow> int) \<Rightarrow> pyval \<Rightarrow> datetime" where
  "waiver_date tz w =
     (case waiver_timestamp w of
        None \<Rightarrow> 0
      | Some t \<Rightarrow> (EPOCH_SECONDS + t + tz t) * 1000000)"

text \<open>
  A current waiver: its received-at date plus 365 days is strictly after the cutoff date.
\<close>

definition current_waiver :: "(int \<Rightarrow> int) \<Rightarrow> datetime \<Rightarrow> pyval \<Rightarrow> bool" where
  "current_waiver tz cutoff w =
     (waiver_timestamp w \<noteq> None \<and> waiver_date tz w + 365 * US_PER_DAY > cutoff)"

definition fields_list :: "pyval \<Rightarrow> pyval list" where
  "fields_list w =
     (case subscript w ''data'' of
        Inl e \<Rightarrow> []
      | Inr d \<Rightarrow> (case iterate d of Inl e \<Rightarrow> [] | Inr fs \<Rightarrow> fs))"

text \<open>All fields of all waivers of a registrant, in scan order.\<close>

definition all_fields :: "registration \<Rightarrow> pyval list" where
  "all_fields reg = concat (map fields_list (waivers_list reg))"

definition is_email_field :: "pyval \<Rightarrow> bool" where
  "is_email_field f = (subscript f ''type'' = Inr (PStr ''email_field''))"

definition field_value :: "pyval \<Rightarrow> pyval" where
  "field_value f = (case subscript f ''value'' of Inl e \<Rightarrow> PNone | Inr v \<Rightarrow> v)"

text \<open>
  The value of the last email-typed field of a sequence of fields, or the empty string
  when there is none.
\<close>

definition last_email :: "pyval list \<Rightarrow> pyval" where
  "last_email fs =
     (case rev (filter is_email_field fs) of [] \<Rightarrow> PStr '''' | f # _ \<Rightarrow> field_value f)"

text \<open>The POSIX timestamps at which a run asks the host for its zone offset.\<close>

definition timestamps :: "registration list \<Rightarrow> int list" where
  "timestamps regs =
     concat (map (\<lambda>reg. List.map_filter waiver_timestamp (waivers_list reg)) regs)"

text \<open>
  The record of a registrant without a current waiver, and a reconciled item as the
  report reads it: the three names are strings and \<open>is_current\<close> is a boolean.
\<close>

definition not_current :: "dict \<Rightarrow> bool" where
  "not_current item = (map_of item ''is_current'' = Some (PBool False))"

definition is_str :: "pyval option \<Rightarrow> bool" where
  "is_str v = (case v of Some (PStr s) \<Rightarrow> True | _ \<Rightarrow> False)"

definition is_bool :: "pyval option \<Rightarrow> bool" where
  "is_bool v = (case v of Some (PBool b) \<Rightarrow> True | _ \<Rightarrow> False)"

definition reconciled :: "dict \<Rightarrow> bool" where
  "reconciled item =
     (is_str (map_of item ''eb_email'') \<and> is_str (map_of item ''eb_first_name'') \<and>
      is_str (map_of item ''eb_last_name'') \<and> is_bool (map_of item ''is_current''))"

definition str_field :: "dict \<Rightarrow> string \<Rightarrow> string" where
  "str_field item k = (case map_of item k of Some (PStr s) \<Rightarrow> s | _ \<Rightarrow> [])"

text \<open>The table row of an item: email, first name and last name in their columns.\<close>

definition table_row :: "dict \<Rightarrow> string" where
  "table_row item =
     ljust 30 (str_field item ''eb_email'') @ '' '' @
     ljust 15 (str_field item ''eb_first_name'') @ '' '' @
     ljust 15 (str_field item ''eb_last_name'')"

definition table_header :: string where
  "table_header = ljust 30 ''Email'' @ '' '' @ ljust 15 ''Firstname'' @ '' '' @ ljust 15 ''Lastname''"

text \<open>
  An item whose dates the report can format: no dates to speak of, or a list of
  \<open>datetime\<close> objects. And the dates once formatted.
\<close>

definition is_datetime :: "pyval \<Rightarrow> bool" where
  "is_datetime v = (case v of PDatetime t \<Rightarrow> True | _ \<Rightarrow> False)"

definition formattable :: "dict \<Rightarrow> bool" where
  "formattable item =
     (\<not> truthy (dict_get item ''dates'') \<or>
      (case dict_get item ''dates'' of PList ds \<Rightarrow> list_all is_datetime ds | _ \<Rightarrow> False))"

definition formatted :: "(datetime \<Rightarrow> string) \<Rightarrow> pyval \<Rightarrow> pyval" where
  "formatted strftime v =
     (case v of
        PList ds \<Rightarrow> PList (map (\<lambda>d. case d of PDatetime t \<Rightarrow> PStr (strftime t) | _ \<Rightarrow> d) ds)
      | _ \<Rightarrow> v)"

section \<open>Sample data\<close>

text \<open>
  Three zone rules: UTC, Asia/Tokyo (nine hours ahead all year), and Europe/London in
  2023 (one hour ahead from 2023-03-26T01:00Z to 2023-10-29T01:00Z).
\<close>

definition zone_utc :: "int \<Rightarrow> int" where
  "zone_utc t = 0"

definition zone_tokyo :: "int \<Rightarrow> int" where
  "zone_tokyo t = 32400"

definition zone_london :: "int \<Rightarrow> int" where
  "zone_london t = (if 1679792400 \<le> t \<and> t < 1698541200 then 3600 else 0)"

text \<open>
  \<open>'%-m/%-d/%Y'\<close> as glibc prints it: month and day without padding, then the year. The
  calendar date comes from the day count by the usual era arithmetic, counting from
  0000-03-01.
\<close>

definition civil :: "datetime \<Rightarrow> int \<times> int \<times> int" where
  "civil t =
     (let z = t div US_PER_DAY + 306;
          era = z div 146097;
          doe = z mod 146097;
          yoe = (doe - doe div 1460 + doe div 36524 - doe div 146096) div 365;
          doy = doe - (365 * yoe + yoe div 4 - yoe div 100);
          mp = (5 * doy + 2) div 153;
          d = doy - (153 * mp + 2) div 5 + 1;
          m = (if mp < 10 then mp + 3 else mp - 9);
          y = yoe + era * 400 + (if m \<le> 2 then 1 else 0)
      in (y, m, d))"

definition strftime_mdY :: "datetime \<Rightarrow> string" where
  "strftime_mdY t =
     (case civil t of (y, m, d) \<Rightarrow> str_int m @ ''/'' @ str_int d @ ''/'' @ str_int y)"

text \<open>The cutoff 2024-06-01T00:00:00.\<close>

definition cutoff_2024_06_01 :: datetime where
  "cutoff_2024_06_01 = 63852796800000000"

text \<open>
  Waivers: received 2023-12-01T00:00:00Z with Alice's email in capitals; received
  2023-12-01T00:00:00Z with Bob's email; received 2022-01-01T00:00:00Z without any field;
  received 2023-06-02T00:00:00Z, 365 days before the cutoff to the microsecond, without any
  field.
\<close>

definition waiver_alice :: pyval where
  "waiver_alice =
     PDict [(''received_at'', PInt 1701388800),
            (''data'', PList [PDict [(''type'', PStr ''name_field''), (''value'', PStr ''Alice A'')],
                              PDict [(''type'', PStr ''email_field''), (''value'', PStr ''ALICE@X.COM'')]])]"

definition waiver_bob :: pyval where
  "waiver_bob =
     PDict [(''received_at'', PInt 1701388800),
            (''data'', PList [PDict [(''type'', PStr ''email_field''), (''value'', PStr ''bob@x.com'')]])]"

definition waiver_2022 :: pyval where
  "waiver_2022 = PDict [(''received_at'', PInt 1640995200), (''data'', PList [])]"

definition waiver_boundary :: pyval where
  "waiver_boundary = PDict [(''received_at'', PInt 1685664000), (''data'', PList [])]"

definition alice :: Registrant where
  "alice = \<lparr>email = ''alice@x.com'', first_name = ''Alice'', last_name = ''A''\<rparr>"

definition carol :: Registrant where
  "carol = \<lparr>email = ''carol@x.com'', first_name = ''Carol'', last_name = ''C''\<rparr>"

definition search_result :: "pyval list \<Rightarrow> pyval" where
  "search_result ws = PDict [(''data'', PDict [(''waivers'', PList ws)])]"

definition reg_alice :: registration where
  "reg_alice = \<lparr>eventbrite_data = alice, waiverforever_data = search_result [waiver_2022, waiver_alice]\<rparr>"

definition reg_alice_expired :: registration where
  "reg_alice_expired = \<lparr>eventbrite_data = alice, waiverforever_data = search_result [waiver_2022]\<rparr>"

definition reg_alice_boundary :: registration where
  "reg_alice_boundary = \<lparr>eventbrite_data = alice, waiverforever_data = search_result [waiver_boundary]\<rparr>"

definition reg_alice_bob_first :: registration where
  "reg_alice_bob_first = \<lparr>eventbrite_data = alice, waiverforever_data = search_result [waiver_bob, waiver_alice]\<rparr>"

definition reg_alice_bob_last :: registration where
  "reg_alice_bob_last = \<lparr>eventbrite_data = alice, waiverforever_data = search_result [waiver_alice, waiver_bob]\<rparr>"

definition reg_carol_none :: registration where
  "reg_carol_none = \<lparr>eventbrite_data = carol, waiverforever_data = search_result []\<rparr>"

definition reg_carol_missing :: registration where
  "reg_carol_missing = \<lparr>eventbrite_data = carol, waiverforever_data = PDict [(''data'', PDict [])]\<rparr>"

text \<open>
  Reconciled items, as the reconciliation under UTC leaves them: Alice with her expired
  waiver only, Alice with her expired and her current waiver, Alice with the waiver that
  expires at the cutoff, Alice with the two waivers of December 2023, Carol without a
  waiver. And a store that holds the first, the second and the last of them at the
  addresses 0, 1 and 2.
\<close>

definition item_alice_two :: dict where
  "item_alice_two =
     [(''wf_email'', PStr ''ALICE@X.COM''), (''eb_email'', PStr ''alice@x.com''),
      (''eb_first_name'', PStr ''Alice''), (''eb_last_name'', PStr ''A''),
      (''dates'', PList [PDatetime 63836985600000000, PDatetime 63836985600000000]),
      (''is_current'', PBool True)]"

definition item_alice_expired :: dict where
  "item_alice_expired =
     [(''wf_email'', PStr ''''), (''eb_email'', PStr ''alice@x.com''),
      (''eb_first_name'', PStr ''Alice''), (''eb_last_name'', PStr ''A''),
      (''dates'', PList [PDatetime 63776592000000000]), (''is_current'', PBool False)]"

definition item_alice :: dict where
  "item_alice =
     [(''wf_email'', PStr ''ALICE@X.COM''), (''eb_email'', PStr ''alice@x.com''),
      (''eb_first_name'', PStr ''Alice''), (''eb_last_name'', PStr ''A''),
      (''dates'', PList [PDatetime 63776592000000000, PDatetime 63836985600000000]),
      (''is_current'', PBool True)]"

definition item_alice_boundary :: dict where
  "item_alice_boundary =
     [(''wf_email'', PStr ''''), (''eb_email'', PStr ''alice@x.com''),
      (''eb_first_name'', PStr ''Alice''), (''eb_last_name'', PStr ''A''),
      (''dates'', PList [PDatetime 63821260800000000]), (''is_current'', PBool False)]"

definition item_carol :: dict where
  "item_carol =
     [(''wf_email'', PStr ''''), (''eb_email'', PStr ''carol@x.com''),
      (''eb_first_name'', PStr ''Carol''), (''eb_last_name'', PStr ''C''),
      (''dates'', PList []), (''is_current'', PBool False)]"

definition sample_store :: store where
  "sample_store a =
     (if a = 0 then item_alice_expired else if a = 1 then item_alice
      else if a = 2 then item_carol else [])"

section \<open>Properties of the scan\<close>

text \<open>The loop over the fields can be cut anywhere: the second part starts from the email the first part left.\<close>

lemma scan_fields_append:
  "scan_fields (fs @ gs) em =
     (case scan_fields fs em of Inl e \<Rightarrow> Inl e | Inr em' \<Rightarrow> scan_fields gs em')"
  by (induction fs arbitrary: em) (auto split: sum.splits)

text \<open>When the loop over the fields ends, it holds the value of the last email field, or what it started with.\<close>

lemma scan_fields_result:
  "scan_fields fs em = Inr em' \<Longrightarrow>
   em' = (case rev (filter is_email_field fs) of [] \<Rightarrow> em | f # _ \<Rightarrow> field_value f)"
proof (induction fs arbitrary: em)
  case Nil
  then show ?case by simp
next
  case (Cons f fs)
  show ?case
  proof (cases "is_email_field f")
    case True
    then obtain v where v: "subscript f ''value'' = Inr v" and r: "scan_fields fs v = Inr em'"
      using Cons.prems by (auto simp: is_email_field_def split: sum.splits)
    have "em' = (case rev (filter is_email_field fs) of [] \<Rightarrow> v | g # _ \<Rightarrow> field_value g)"
      using Cons.IH [OF r] .
    then show ?thesis
      using True v by (cases "rev (filter is_email_field fs)") (simp_all add: field_value_def)
  next
    case False
    then have r: "scan_fields fs em = Inr em'"
      using Cons.prems by (auto simp: is_email_field_def split: sum.splits if_splits)
    show ?thesis using Cons.IH [OF r] False by simp
  qed
qed

lemma fromtimestamp_date:
  assumes "subscript w ''received_at'' = Inr v" and "fromtimestamp tz v = Inr d"
  shows "waiver_timestamp w \<noteq> None" and "waiver_date tz w = d"
  using assms
  by (auto simp: fromtimestamp_def waiver_date_def waiver_timestamp_def Let_def
           split: option.splits if_splits)

lemma add_days_sum: "add_days d n = Inr x \<Longrightarrow> x = d + n * US_PER_DAY"
  by (auto simp: add_days_def Let_def split: if_splits)

text \<open>
  What the loop over the waivers leaves when it ends: a date for every waiver, the
  currency of any of them, and the email scanned through the fields of all of them.
\<close>

lemma scan_waivers_result:
  "scan_waivers tz end_date ws st = Inr st' \<Longrightarrow>
     dates st' = dates st @ map (waiver_date tz) ws \<and>
     is_current st' = (is_current st \<or> (\<exists>w \<in> set ws. current_waiver tz end_date w)) \<and>
     scan_fields (concat (map fields_list ws)) (waiverforever_email st)
       = Inr (waiverforever_email st')"
proof (induction ws arbitrary: st)
  case Nil
  then show ?case by simp
next
  case (Cons w ws)
  from Cons.prems obtain v d x dat fs em where
    v: "subscript w ''received_at'' = Inr v" and
    d: "fromtimestamp tz v = Inr d" and
    x: "add_days d WAIVER_VALIDITY = Inr x" and
    dat: "subscript w ''data'' = Inr dat" and
    fs: "iterate dat = Inr fs" and
    em: "scan_fields fs (waiverforever_email st) = Inr em" and
    r: "scan_waivers tz end_date ws
          \<lparr>dates = dates st @ [d],
           is_current = (if x > end_date then True else is_current st),
           waiverforever_email = em\<rparr> = Inr st'"
    by (auto split: sum.splits)
  have cw: "current_waiver tz end_date w = (x > end_date)"
    using fromtimestamp_date [OF v d] add_days_sum [OF x]
    by (simp add: current_waiver_def WAIVER_VALIDITY_def)
  have fl: "fields_list w = fs"
    using dat fs by (simp add: fields_list_def)
  from Cons.IH [OF r] show ?case
    using fromtimestamp_date(2) [OF v d] cw fl em by (auto simp: scan_fields_append)
qed

lemma scan_registration_result:
  assumes "scan_registration tz end_date reg = Inr st"
  shows "dates st = map (waiver_date tz) (waivers_list reg)"
    and "is_current st = (\<exists>w \<in> set (waivers_list reg). current_waiver tz end_date w)"
    and "scan_fields (all_fields reg) (PStr '''') = Inr (waiverforever_email st)"
    and "waiverforever_email st = last_email (all_fields reg)"
proof -
  from assms obtain ws where ws: "waivers_of reg = Inr ws"
    and sc: "scan_waivers tz end_date ws
               \<lparr>dates = [], is_current = False, waiverforever_email = PStr ''''\<rparr> = Inr st"
    by (auto simp: scan_registration_def split: sum.splits)
  have wl: "waivers_list reg = ws" using ws by (simp add: waivers_list_def)
  from scan_waivers_result [OF sc] wl
  show "dates st = map (waiver_date tz) (waivers_list reg)"
    and "is_current st = (\<exists>w \<in> set (waivers_list reg). current_waiver tz end_date w)"
    and sf: "scan_fields (all_fields reg) (PStr '''') = Inr (waiverforever_email st)"
    by (simp_all add: all_fields_def)
  from scan_fields_result [OF sf]
  show "waiverforever_email st = last_email (all_fields reg)"
    by (simp add: last_email_def)
qed

section \<open>Properties of the loop over the registrations\<close>

text \<open>The items already appended stay in front of the ones the loop adds.\<close>

lemma process_loop_acc:
  "process_loop tz end_date regs acc =
     (case process_loop tz end_date regs [] of
        Inl e \<Rightarrow> Inl e
      | Inr out \<Rightarrow> Inr (acc @ out))"
proof (induction regs arbitrary: acc)
  case Nil
  show ?case by simp
next
  case (Cons reg regs)
  show ?case
  proof (cases "process_registration tz end_date reg")
    case (Inl e)
    then show ?thesis by simp
  next
    case (Inr item)
    have "process_loop tz end_date regs (acc @ [item]) =
            (case process_loop tz end_date regs [] of
               Inl e \<Rightarrow> Inl e | Inr out \<Rightarrow> Inr ((acc @ [item]) @ out))"
      by (rule Cons.IH)
    moreover have "process_loop tz end_date regs [item] =
            (case process_loop tz end_date regs [] of
               Inl e \<Rightarrow> Inl e | Inr out \<Rightarrow> Inr ([item] @ out))"
      by (rule Cons.IH)
    ultimately show ?thesis using Inr by (simp split: sum.splits)
  qed
qed

lemma process_waiver_data_Nil: "process_waiver_data tz [] end_date = Inr []"
  by (simp add: process_waiver_data_def)

lemma process_waiver_data_Cons:
  "process_waiver_data tz (reg # regs) end_date =
     (case process_registration tz end_date reg of
        Inl e \<Rightarrow> Inl e
      | Inr item \<Rightarrow>
          (case process_waiver_data tz regs end_date of
             Inl e \<Rightarrow> Inl e
           | Inr out \<Rightarrow> Inr (item # out)))"
  unfolding process_waiver_data_def
  using process_loop_acc [of tz end_date regs "[x]" for x]
  by (simp split: sum.splits)

lemma process_waiver_data_append:
  "process_waiver_data tz (xs @ ys) end_date =
     (case process_waiver_data tz xs end_date of
        Inl e \<Rightarrow> Inl e
      | Inr out \<Rightarrow>
          (case process_waiver_data tz ys end_date of
             Inl e \<Rightarrow> Inl e
           | Inr out' \<Rightarrow> Inr (out @ out')))"
  by (induction xs) (auto simp: process_waiver_data_Cons process_waiver_data_Nil split: sum.splits)

text \<open>A run that returns has one item for each registration, in order.\<close>

lemma process_waiver_data_items:
  "process_waiver_data tz regs end_date = Inr out \<Longrightarrow>
     list_all2 (\<lambda>reg item. process_registration tz end_date reg = Inr item) regs out"
  by (induction regs arbitrary: out)
     (auto simp: process_waiver_data_Cons process_waiver_data_Nil split: sum.splits)

lemma process_registration_item:
  assumes "process_registration tz end_date reg = Inr item"
  obtains st where "scan_registration tz end_date reg = Inr st"
    and "check_email (waiverforever_email st) (email (eventbrite_data reg)) = Inr ()"
    and "item = [(''wf_email'', waiverforever_email st),
                 (''eb_email'', PStr (email (eventbrite_data reg))),
                 (''eb_first_name'', PStr (first_name (eventbrite_data reg))),
                 (''eb_last_name'', PStr (last_name (eventbrite_data reg))),
                 (''dates'', PList (map PDatetime (dates st))),
                 (''is_current'', PBool (is_current st))]"
  using assms by (auto simp: process_registration_def split: sum.splits)

lemma item_of_scan:
  assumes "process_waiver_data tz regs end_date = Inr out" and "i < length regs"
  obtains st where "scan_registration tz end_date (regs ! i) = Inr st"
    and "check_email (waiverforever_email st) (email (eventbrite_data (regs ! i))) = Inr ()"
    and "out ! i = [(''wf_email'', waiverforever_email st),
                 (''eb_email'', PStr (email (eventbrite_data (regs ! i)))),
                 (''eb_first_name'', PStr (first_name (eventbrite_data (regs ! i)))),
                 (''eb_last_name'', PStr (last_name (eventbrite_data (regs ! i)))),
                 (''dates'', PList (map PDatetime (dates st))),
                 (''is_current'', PBool (is_current st))]"
proof -
  have "process_registration tz end_date (regs ! i) = Inr (out ! i)"
    using process_waiver_data_items [OF assms(1)] assms(2)
    by (simp add: list_all2_conv_all_nth)
  then show ?thesis using that by (rule process_registration_item)
qed

lemma item_is_current:
  assumes "process_waiver_data tz regs end_date = Inr out" and "i < length regs"
  shows "dict_item (out ! i) ''is_current'' =
           Inr (PBool (\<exists>w \<in> set (waivers_list (regs ! i)). current_waiver tz end_date w))"
proof -
  from assms obtain st where st: "scan_registration tz end_date (regs ! i) = Inr st"
    and item: "out ! i = [(''wf_email'', waiverforever_email st),
                 (''eb_email'', PStr (email (eventbrite_data (regs ! i)))),
                 (''eb_first_name'', PStr (first_name (eventbrite_data (regs ! i)))),
                 (''eb_last_name'', PStr (last_name (eventbrite_data (regs ! i)))),
                 (''dates'', PList (map PDatetime (dates st))),
                 (''is_current'', PBool (is_current st))]"
    by (rule item_of_scan)
  show ?thesis
    unfolding item using scan_registration_result(2) [OF st]
    by (simp add: dict_item_def)
qed

text \<open>The sample run: three registrants under UTC, all reconciled.\<close>

lemma sample_run:
  "process_waiver_data zone_utc [reg_alice_expired, reg_alice, reg_carol_none] cutoff_2024_06_01
     = Inr [item_alice_expired, item_alice, item_carol]"
  by code_simp

lemma sample_run_boundary:
  "process_waiver_data zone_utc [reg_alice_boundary] cutoff_2024_06_01
     = Inr [item_alice_boundary]"
  by code_simp

section \<open>The reconciled items\<close>

text \<open>
  Claim C1. For every registrant and every cutoff date, the item that the reconciliation
  returns for the registrant has \<open>is_current = True\<close> whenever the registrant's search
  result contains at least one waiver whose received-at date plus 365 days is strictly
  after the cutoff, whatever the other waivers of the list are.
\<close>

theorem current_waiver_gives_is_current:
  assumes "process_waiver_data tz registration_data cutoff = Inr out"
    and "i < length registration_data"
    and "w \<in> set (waivers_list (registration_data ! i))"
    and "current_waiver tz cutoff w"
  shows "dict_item (out ! i) ''is_current'' = Inr (PBool True)"
proof -
  have "\<exists>w \<in> set (waivers_list (registration_data ! i)). current_waiver tz cutoff w"
    using assms(3,4) by blast
  then show ?thesis
    using item_is_current [OF assms(1,2)] by simp
qed

text \<open>
  Alice's second waiver is current and her first is not; her item says \<open>True\<close>.
\<close>

theorem current_waiver_gives_is_current_witness:
  "process_waiver_data zone_utc [reg_alice_expired, reg_alice, reg_carol_none] cutoff_2024_06_01
     = Inr [item_alice_expired, item_alice, item_carol]
   \<and> (1::nat) < length [reg_alice_expired, reg_alice, reg_carol_none]
   \<and> waiver_alice \<in> set (waivers_list ([reg_alice_expired, reg_alice, reg_carol_none] ! 1))
   \<and> current_waiver zone_utc cutoff_2024_06_01 waiver_alice
   \<and> waiver_2022 \<in> set (waivers_list ([reg_alice_expired, reg_alice, reg_carol_none] ! 1))
   \<and> \<not> current_waiver zone_utc cutoff_2024_06_01 waiver_2022
   \<and> dict_item ([item_alice_expired, item_alice, item_carol] ! 1) ''is_current''
       = Inr (PBool True)"
proof -
  have len: "(1::nat) < length [reg_alice_expired, reg_alice, reg_carol_none]" by simp
  have mem: "waiver_alice \<in> set (waivers_list ([reg_alice_expired, reg_alice, reg_carol_none] ! 1))"
    by code_simp
  have cur: "current_waiver zone_utc cutoff_2024_06_01 waiver_alice" by code_simp
  have mem': "waiver_2022 \<in> set (waivers_list ([reg_alice_expired, reg_alice, reg_carol_none] ! 1))"
    by code_simp
  have old: "\<not> current_waiver zone_utc cutoff_2024_06_01 waiver_2022" by code_simp
  have "dict_item ([item_alice_expired, item_alice, item_carol] ! 1) ''is_current''
          = Inr (PBool True)"
    by (rule current_waiver_gives_is_current [OF sample_run len mem cur])
  then show ?thesis
    using sample_run len mem cur mem' old by (intro conjI)
qed

text \<open>
  Claim C9. For every registrant, \<open>is_current\<close> in the item returned is \<open>True\<close> if and
  only if at least one waiver of the search result has a received-at date plus 365 days
  strictly after the cutoff; when no waiver has, a waiver that expires exactly at the
  cutoff included, \<open>is_current\<close> is \<open>False\<close>.
\<close>

theorem is_current_iff_some_waiver_current:
  assumes "process_waiver_data tz registration_data cutoff = Inr out"
    and "i < length registration_data"
  shows "(dict_item (out ! i) ''is_current'' = Inr (PBool True) \<longleftrightarrow>
            (\<exists>w \<in> set (waivers_list (registration_data ! i)). current_waiver tz cutoff w)) \<and>
         (dict_item (out ! i) ''is_current'' = Inr (PBool False) \<longleftrightarrow>
            (\<forall>w \<in> set (waivers_list (registration_data ! i)). \<not> current_waiver tz cutoff w))"
  using item_is_current [OF assms] by simp

text \<open>
  A waiver received 365 days before the cutoff to the microsecond expires at the cutoff,
  not after it: the item says \<open>False\<close>.
\<close>

theorem is_current_iff_some_waiver_current_witness:
  "process_waiver_data zone_utc [reg_alice_boundary] cutoff_2024_06_01 = Inr [item_alice_boundary]
   \<and> (0::nat) < length [reg_alice_boundary]
   \<and> waivers_list ([reg_alice_boundary] ! 0) = [waiver_boundary]
   \<and> waiver_date zone_utc waiver_boundary + 365 * US_PER_DAY = cutoff_2024_06_01
   \<and> \<not> current_waiver zone_utc cutoff_2024_06_01 waiver_boundary
   \<and> dict_item ([item_alice_boundary] ! 0) ''is_current'' = Inr (PBool False)"
proof -
  have len: "(0::nat) < length [reg_alice_boundary]" by simp
  have ws: "waivers_list ([reg_alice_boundary] ! 0) = [waiver_boundary]" by code_simp
  have eq: "waiver_date zone_utc waiver_boundary + 365 * US_PER_DAY = cutoff_2024_06_01"
    by code_simp
  have nc: "\<not> current_waiver zone_utc cutoff_2024_06_01 waiver_boundary" by code_simp
  have none: "\<forall>w \<in> set (waivers_list ([reg_alice_boundary] ! 0)).
                \<not> current_waiver zone_utc cutoff_2024_06_01 w"
    unfolding ws using nc by simp
  have "dict_item ([item_alice_boundary] ! 0) ''is_current'' = Inr (PBool False)"
    using is_current_iff_some_waiver_current [OF sample_run_boundary len] none by blast
  then show ?thesis
    using sample_run_boundary len ws eq nc by (intro conjI)
qed

text \<open>
  Claim C2. Every item that the reconciliation returns satisfies the invariant:
  \<open>wf_email\<close> is the empty string, or \<open>wf_email\<close> equals \<open>eb_email\<close> up to case. A run
  that meets an item violating it returns no list at all.
\<close>

theorem emitted_emails_match:
  assumes "process_waiver_data tz registration_data end_date = Inr out"
    and "item \<in> set out"
  shows "\<exists>wf_email eb_email.
           dict_item item ''wf_email'' = Inr (PStr wf_email) \<and>
           dict_item item ''eb_email'' = Inr (PStr eb_email) \<and>
           (wf_email = '''' \<or> lower wf_email = lower eb_email)"
proof -
  from assms(2) obtain i where i: "i < length out" and it: "item = out ! i"
    by (auto simp: in_set_conv_nth)
  have len: "length out = length registration_data"
    using process_waiver_data_items [OF assms(1)] by (simp add: list_all2_lengthD)
  have ilt: "i < length registration_data" using i len by simp
  from assms(1) ilt obtain st where
    "scan_registration tz end_date (registration_data ! i) = Inr st" and
    chk: "check_email (waiverforever_email st) (email (eventbrite_data (registration_data ! i))) = Inr ()"
    and item: "out ! i = [(''wf_email'', waiverforever_email st),
                 (''eb_email'', PStr (email (eventbrite_data (registration_data ! i)))),
                 (''eb_first_name'', PStr (first_name (eventbrite_data (registration_data ! i)))),
                 (''eb_last_name'', PStr (last_name (eventbrite_data (registration_data ! i)))),
                 (''dates'', PList (map PDatetime (dates st))),
                 (''is_current'', PBool (is_current st))]"
    by (rule item_of_scan)
  from chk obtain s where s: "waiverforever_email st = PStr s"
    and ok: "s = '''' \<or> lower s = lower (email (eventbrite_data (registration_data ! i)))"
    by (auto simp: check_email_def split: pyval.splits if_splits)
  show ?thesis
    unfolding it item using s ok by (simp add: dict_item_def)
qed

text \<open>
  Alice's item carries the waiver's email in capitals, equal to her own up to case, and
  Carol's carries the empty string.
\<close>

theorem emitted_emails_match_witness:
  "process_waiver_data zone_utc [reg_alice_expired, reg_alice, reg_carol_none] cutoff_2024_06_01
     = Inr [item_alice_expired, item_alice, item_carol]
   \<and> item_alice \<in> set [item_alice_expired, item_alice, item_carol]
   \<and> dict_item item_alice ''wf_email'' = Inr (PStr ''ALICE@X.COM'')
   \<and> dict_item item_alice ''eb_email'' = Inr (PStr ''alice@x.com'')
   \<and> lower ''ALICE@X.COM'' = lower ''alice@x.com''
   \<and> (\<exists>wf_email eb_email.
         dict_item item_alice ''wf_email'' = Inr (PStr wf_email) \<and>
         dict_item item_alice ''eb_email'' = Inr (PStr eb_email) \<and>
         (wf_email = '''' \<or> lower wf_email = lower eb_email))"
proof -
  have mem: "item_alice \<in> set [item_alice_expired, item_alice, item_carol]" by simp
  have wf: "dict_item item_alice ''wf_email'' = Inr (PStr ''ALICE@X.COM'')" by code_simp
  have eb: "dict_item item_alice ''eb_email'' = Inr (PStr ''alice@x.com'')" by code_simp
  have lw: "lower ''ALICE@X.COM'' = lower ''alice@x.com''" by code_simp
  from emitted_emails_match [OF sample_run mem] sample_run mem wf eb lw
  show ?thesis by (intro conjI)
qed

text \<open>
  A registrant with two current waivers, Bob's email on the first and Alice's on the
  second: the run returns, with both dates and the second email.
\<close>

lemma sample_run_two_waivers:
  "process_waiver_data zone_utc [reg_alice_bob_first] cutoff_2024_06_01 = Inr [item_alice_two]"
  by code_simp

text \<open>
  Claim C5. For every registrant, the \<open>dates\<close> of the item returned hold exactly one date
  for each waiver of the search result, in the order of the waivers, and every waiver is
  scanned, its date appended and its email fields read, also after \<open>is_current\<close> has
  become \<open>True\<close>: \<open>wf_email\<close> is what the scan of the fields of all waivers leaves.
\<close>

theorem dates_one_per_waiver:
  assumes "process_waiver_data tz registration_data end_date = Inr out"
    and "i < length registration_data"
  shows "dict_item (out ! i) ''dates'' =
           Inr (PList (map (\<lambda>w. PDatetime (waiver_date tz w))
                        (waivers_list (registration_data ! i)))) \<and>
         dict_item (out ! i) ''wf_email'' =
           scan_fields (all_fields (registration_data ! i)) (PStr '''')"
proof -
  from assms obtain st where st: "scan_registration tz end_date (registration_data ! i) = Inr st"
    and item: "out ! i = [(''wf_email'', waiverforever_email st),
                 (''eb_email'', PStr (email (eventbrite_data (registration_data ! i)))),
                 (''eb_first_name'', PStr (first_name (eventbrite_data (registration_data ! i)))),
                 (''eb_last_name'', PStr (last_name (eventbrite_data (registration_data ! i)))),
                 (''dates'', PList (map PDatetime (dates st))),
                 (''is_current'', PBool (is_current st))]"
    by (rule item_of_scan)
  have "dict_item (out ! i) ''dates'' =
           Inr (PList (map (\<lambda>w. PDatetime (waiver_date tz w))
                        (waivers_list (registration_data ! i))))"
    unfolding item using scan_registration_result(1) [OF st]
    by (simp add: dict_item_def comp_def)
  moreover have "dict_item (out ! i) ''wf_email'' =
           scan_fields (all_fields (registration_data ! i)) (PStr '''')"
    unfolding item using scan_registration_result(3) [OF st]
    by (simp add: dict_item_def)
  ultimately show ?thesis by (rule conjI)
qed

text \<open>
  The first of the two waivers is current already; the date and the email of the second
  are in the item all the same.
\<close>

theorem dates_one_per_waiver_witness:
  "process_waiver_data zone_utc [reg_alice_bob_first] cutoff_2024_06_01 = Inr [item_alice_two]
   \<and> (0::nat) < length [reg_alice_bob_first]
   \<and> waivers_list ([reg_alice_bob_first] ! 0) = [waiver_bob, waiver_alice]
   \<and> current_waiver zone_utc cutoff_2024_06_01 waiver_bob
   \<and> dict_item ([item_alice_two] ! 0) ''dates'' =
        Inr (PList [PDatetime (waiver_date zone_utc waiver_bob),
                    PDatetime (waiver_date zone_utc waiver_alice)])
   \<and> dict_item ([item_alice_two] ! 0) ''wf_email'' = Inr (PStr ''ALICE@X.COM'')"
proof -
  have len: "(0::nat) < length [reg_alice_bob_first]" by simp
  have ws: "waivers_list ([reg_alice_bob_first] ! 0) = [waiver_bob, waiver_alice]" by code_simp
  have cur: "current_waiver zone_utc cutoff_2024_06_01 waiver_bob" by code_simp
  have sf: "scan_fields (all_fields ([reg_alice_bob_first] ! 0)) (PStr '''')
              = Inr (PStr ''ALICE@X.COM'')"
    by code_simp
  from dates_one_per_waiver [OF sample_run_two_waivers len]
  have "dict_item ([item_alice_two] ! 0) ''dates'' =
          Inr (PList [PDatetime (waiver_date zone_utc waiver_bob),
                      PDatetime (waiver_date zone_utc waiver_alice)])"
    and "dict_item ([item_alice_two] ! 0) ''wf_email'' = Inr (PStr ''ALICE@X.COM'')"
    unfolding ws sf by simp_all
  then show ?thesis
    using sample_run_two_waivers len ws cur by (intro conjI)
qed

text \<open>
  Claim C6. For every registrant, \<open>wf_email\<close> in the item returned is the value of the
  last email-typed field met across the registrant's waivers in scan order (the last one
  wins when several waivers have an email field), or the empty string when no waiver has
  an email field.
\<close>

theorem wf_email_is_last_email_field:
  assumes "process_waiver_data tz registration_data end_date = Inr out"
    and "i < length registration_data"
  shows "dict_item (out ! i) ''wf_email'' = Inr (last_email (all_fields (registration_data ! i)))"
proof -
  from assms obtain st where st: "scan_registration tz end_date (registration_data ! i) = Inr st"
    and item: "out ! i = [(''wf_email'', waiverforever_email st),
                 (''eb_email'', PStr (email (eventbrite_data (registration_data ! i)))),
                 (''eb_first_name'', PStr (first_name (eventbrite_data (registration_data ! i)))),
                 (''eb_last_name'', PStr (last_name (eventbrite_data (registration_data ! i)))),
                 (''dates'', PList (map PDatetime (dates st))),
                 (''is_current'', PBool (is_current st))]"
    by (rule item_of_scan)
  show ?thesis
    unfolding item using scan_registration_result(4) [OF st]
    by (simp add: dict_item_def)
qed

text \<open>
  Of Bob's email on the first waiver and Alice's on the second, the second is kept; Carol,
  without a waiver, keeps the empty string.
\<close>

theorem wf_email_is_last_email_field_witness:
  "process_waiver_data zone_utc [reg_alice_bob_first] cutoff_2024_06_01 = Inr [item_alice_two]
   \<and> (0::nat) < length [reg_alice_bob_first]
   \<and> filter is_email_field (all_fields ([reg_alice_bob_first] ! 0))
       = [PDict [(''type'', PStr ''email_field''), (''value'', PStr ''bob@x.com'')],
          PDict [(''type'', PStr ''email_field''), (''value'', PStr ''ALICE@X.COM'')]]
   \<and> dict_item ([item_alice_two] ! 0) ''wf_email'' = Inr (PStr ''ALICE@X.COM'')
   \<and> process_waiver_data zone_utc [reg_alice_expired, reg_alice, reg_carol_none] cutoff_2024_06_01
       = Inr [item_alice_expired, item_alice, item_carol]
   \<and> (2::nat) < length [reg_alice_expired, reg_alice, reg_carol_none]
   \<and> filter is_email_field (all_fields ([reg_alice_expired, reg_alice, reg_carol_none] ! 2)) = []
   \<and> dict_item ([item_alice_expired, item_alice, item_carol] ! 2) ''wf_email''
       = Inr (PStr '''')"
proof -
  have l0: "(0::nat) < length [reg_alice_bob_first]" by simp
  have l2: "(2::nat) < length [reg_alice_expired, reg_alice, reg_carol_none]" by simp
  have f0: "filter is_email_field (all_fields ([reg_alice_bob_first] ! 0))
       = [PDict [(''type'', PStr ''email_field''), (''value'', PStr ''bob@x.com'')],
          PDict [(''type'', PStr ''email_field''), (''value'', PStr ''ALICE@X.COM'')]]"
    by code_simp
  have f2: "filter is_email_field (all_fields ([reg_alice_expired, reg_alice, reg_carol_none] ! 2)) = []"
    by code_simp
  have e0: "last_email (all_fields ([reg_alice_bob_first] ! 0)) = PStr ''ALICE@X.COM''"
    by code_simp
  have e2: "last_email (all_fields ([reg_alice_expired, reg_alice, reg_carol_none] ! 2))
              = PStr ''''"
    by code_simp
  have "dict_item ([item_alice_two] ! 0) ''wf_email'' = Inr (PStr ''ALICE@X.COM'')"
    using wf_email_is_last_email_field [OF sample_run_two_waivers l0] unfolding e0 .
  moreover have "dict_item ([item_alice_expired, item_alice, item_carol] ! 2) ''wf_email''
          = Inr (PStr '''')"
    using wf_email_is_last_email_field [OF sample_run l2] unfolding e2 .
  ultimately show ?thesis
    using sample_run_two_waivers sample_run l0 l2 f0 f2 by (intro conjI)
qed

section \<open>Runs that abort, and runs that do not\<close>

text \<open>
  Claim C3, as stated, fails. It says that a registrant whose search result contains a
  waiver with an email field whose value differs up to case from the registrant's email
  ends the run with a fatal error. Here the first waiver of Alice's registration carries
  Bob's email, the second carries hers: the later field replaces the earlier one before
  the check, and the run returns the items of both registrants.
\<close>

theorem mismatch_not_always_fatal:
  "waiver_bob \<in> set (waivers_list reg_alice_bob_first)
   \<and> PDict [(''type'', PStr ''email_field''), (''value'', PStr ''bob@x.com'')]
         \<in> set (fields_list waiver_bob)
   \<and> is_email_field (PDict [(''type'', PStr ''email_field''), (''value'', PStr ''bob@x.com'')])
   \<and> lower ''bob@x.com'' \<noteq> lower (email (eventbrite_data reg_alice_bob_first))
   \<and> process_waiver_data zone_utc [reg_alice_bob_first, reg_carol_none] cutoff_2024_06_01
        = Inr [item_alice_two, item_carol]"
  by code_simp

lemma check_email_mismatch:
  assumes "s \<noteq> ''''" and "lower s \<noteq> lower eb"
  shows "check_email (PStr s) eb =
           Inl (AssertionError (''found a non-matching email field. WF: '' @ s @ '' EB: '' @ eb))"
  using assms by (simp add: check_email_def)

text \<open>
  Claim C3, amended. For every registrant that the run reaches (the registrants before
  it reconciled without error) and whose scan completes, if the last email-typed field
  across the registrant's waivers has a non-empty value that differs up to case from the
  registrant's ticketing email, the reconciliation ends the run with an
  \<open>AssertionError\<close> whose message reports both emails, whatever registrants remain.
\<close>

theorem last_email_mismatch_aborts:
  assumes "process_waiver_data tz before end_date = Inr out"
    and "scan_registration tz end_date reg = Inr st"
    and "last_email (all_fields reg) = PStr s"
    and "s \<noteq> ''''"
    and "lower s \<noteq> lower (email (eventbrite_data reg))"
  shows "process_waiver_data tz (before @ reg # remaining) end_date =
           Inl (AssertionError (''found a non-matching email field. WF: '' @ s @ '' EB: ''
                                 @ email (eventbrite_data reg)))"
proof -
  have em: "waiverforever_email st = PStr s"
    using scan_registration_result(4) [OF assms(2)] assms(3) by simp
  have "process_registration tz end_date reg =
           Inl (AssertionError (''found a non-matching email field. WF: '' @ s @ '' EB: ''
                                 @ email (eventbrite_data reg)))"
    using assms(2) em check_email_mismatch [OF assms(4,5)]
    by (simp add: process_registration_def)
  then show ?thesis
    using assms(1) by (simp add: process_waiver_data_append process_waiver_data_Cons)
qed

text \<open>
  With Bob's email on the last waiver the run aborts at Alice's registration; the
  registration after it, which would raise \<open>KeyError\<close>, is never looked at.
\<close>

theorem last_email_mismatch_aborts_witness:
  "process_waiver_data zone_utc [reg_alice_expired] cutoff_2024_06_01 = Inr [item_alice_expired]
   \<and> scan_registration zone_utc cutoff_2024_06_01 reg_alice_bob_last
       = Inr \<lparr>dates = [63836985600000000, 63836985600000000], is_current = True,
              waiverforever_email = PStr ''bob@x.com''\<rparr>
   \<and> last_email (all_fields reg_alice_bob_last) = PStr ''bob@x.com''
   \<and> ''bob@x.com'' \<noteq> ''''
   \<and> lower ''bob@x.com'' \<noteq> lower (email (eventbrite_data reg_alice_bob_last))
   \<and> process_waiver_data zone_utc [reg_carol_missing] cutoff_2024_06_01
       = Inl (KeyError ''waivers'')
   \<and> process_waiver_data zone_utc ([reg_alice_expired] @ reg_alice_bob_last # [reg_carol_missing])
        cutoff_2024_06_01
       = Inl (AssertionError ''found a non-matching email field. WF: bob@x.com EB: alice@x.com'')"
proof -
  have h1: "process_waiver_data zone_utc [reg_alice_expired] cutoff_2024_06_01
              = Inr [item_alice_expired]"
    by code_simp
  have h2: "scan_registration zone_utc cutoff_2024_06_01 reg_alice_bob_last
       = Inr \<lparr>dates = [63836985600000000, 63836985600000000], is_current = True,
              waiverforever_email = PStr ''bob@x.com''\<rparr>"
    by code_simp
  have h3: "last_email (all_fields reg_alice_bob_last) = PStr ''bob@x.com''"
    by code_simp
  have h4: "''bob@x.com'' \<noteq> ''''" by simp
  have h5: "lower ''bob@x.com'' \<noteq> lower (email (eventbrite_data reg_alice_bob_last))"
    by code_simp
  have k: "process_waiver_data zone_utc [reg_carol_missing] cutoff_2024_06_01
             = Inl (KeyError ''waivers'')"
    by code_simp
  have e: "email (eventbrite_data reg_alice_bob_last) = ''alice@x.com''"
    by code_simp
  have "process_waiver_data zone_utc ([reg_alice_expired] @ reg_alice_bob_last # [reg_carol_missing])
        cutoff_2024_06_01
       = Inl (AssertionError ''found a non-matching email field. WF: bob@x.com EB: alice@x.com'')"
    using last_email_mismatch_aborts [OF h1 h2 h3 h4 h5, of "[reg_carol_missing]"]
    unfolding e by simp
  then show ?thesis
    using h1 h2 h3 h4 h5 k by (intro conjI)
qed

text \<open>
  Claim C4, as stated, fails. It counts a waiver list that is missing from the lookup
  result among the cases that never raise. Carol's lookup result has a \<open>data\<close> entry
  without the key \<open>waivers\<close>, and the subscript raises \<open>KeyError\<close>.
\<close>

theorem missing_waiver_list_raises:
  "waiverforever_data reg_carol_missing = PDict [(''data'', PDict [])]
   \<and> subscript (waiverforever_data reg_carol_missing) ''data'' = Inr (PDict [])
   \<and> subscript (PDict []) ''waivers'' = Inl (KeyError ''waivers'')
   \<and> process_waiver_data zone_utc [reg_carol_missing] cutoff_2024_06_01
       = Inl (KeyError ''waivers'')"
  by code_simp

text \<open>
  Claim C4, amended. For every registrant that the run reaches and whose lookup result
  holds a waiver list with zero waivers, the reconciliation raises no error for the
  registrant and appends the item with \<open>is_current = False\<close>, \<open>dates = []\<close> and
  \<open>wf_email = ''\<close>, then goes on with the registrants that remain.
\<close>

theorem no_waivers_no_error:
  assumes "process_waiver_data tz before end_date = Inr out"
    and "waivers_of reg = Inr []"
  shows "process_waiver_data tz (before @ reg # remaining) end_date =
           (case process_waiver_data tz remaining end_date of
              Inl e \<Rightarrow> Inl e
            | Inr out' \<Rightarrow>
                Inr (out @
                     [(''wf_email'', PStr ''''),
                      (''eb_email'', PStr (email (eventbrite_data reg))),
                      (''eb_first_name'', PStr (first_name (eventbrite_data reg))),
                      (''eb_last_name'', PStr (last_name (eventbrite_data reg))),
                      (''dates'', PList []),
                      (''is_current'', PBool False)] # out'))"
proof -
  have "process_registration tz end_date reg =
          Inr [(''wf_email'', PStr ''''),
               (''eb_email'', PStr (email (eventbrite_data reg))),
               (''eb_first_name'', PStr (first_name (eventbrite_data reg))),
               (''eb_last_name'', PStr (last_name (eventbrite_data reg))),
               (''dates'', PList []),
               (''is_current'', PBool False)]"
    using assms(2)
    by (simp add: process_registration_def scan_registration_def check_email_def)
  then show ?thesis
    using assms(1)
    by (simp add: process_waiver_data_append process_waiver_data_Cons split: sum.splits)
qed

text \<open>Carol, between two registrants with waivers, gets her item and the run goes on.\<close>

theorem no_waivers_no_error_witness:
  "process_waiver_data zone_utc [reg_alice_expired] cutoff_2024_06_01 = Inr [item_alice_expired]
   \<and> waiverforever_data reg_carol_none = PDict [(''data'', PDict [(''waivers'', PList [])])]
   \<and> waivers_of reg_carol_none = Inr []
   \<and> process_waiver_data zone_utc ([reg_alice_expired] @ reg_carol_none # [reg_alice])
        cutoff_2024_06_01
       = Inr [item_alice_expired, item_carol, item_alice]
   \<and> dict_item item_carol ''is_current'' = Inr (PBool False)
   \<and> dict_item item_carol ''dates'' = Inr (PList [])
   \<and> dict_item item_carol ''wf_email'' = Inr (PStr '''')"
proof -
  have h1: "process_waiver_data zone_utc [reg_alice_expired] cutoff_2024_06_01
              = Inr [item_alice_expired]"
    by code_simp
  have d0: "waiverforever_data reg_carol_none = PDict [(''data'', PDict [(''waivers'', PList [])])]"
    by code_simp
  have h2: "waivers_of reg_carol_none = Inr []" by code_simp
  have r: "process_waiver_data zone_utc [reg_alice] cutoff_2024_06_01 = Inr [item_alice]"
    by code_simp
  have c: "[(''wf_email'', PStr ''''),
            (''eb_email'', PStr (email (eventbrite_data reg_carol_none))),
            (''eb_first_name'', PStr (first_name (eventbrite_data reg_carol_none))),
            (''eb_last_name'', PStr (last_name (eventbrite_data reg_carol_none))),
            (''dates'', PList []),
            (''is_current'', PBool False)] = item_carol"
    by code_simp
  have d1: "dict_item item_carol ''is_current'' = Inr (PBool False)" by code_simp
  have d2: "dict_item item_carol ''dates'' = Inr (PList [])" by code_simp
  have d3: "dict_item item_carol ''wf_email'' = Inr (PStr '''')" by code_simp
  have "process_waiver_data zone_utc ([reg_alice_expired] @ reg_carol_none # [reg_alice])
        cutoff_2024_06_01
       = Inr [item_alice_expired, item_carol, item_alice]"
    using no_waivers_no_error [OF h1 h2, of "[reg_alice]"] unfolding r c by simp
  then show ?thesis
    using h1 d0 h2 d1 d2 d3 by (intro conjI)
qed

section \<open>What the result depends on\<close>

text \<open>
  Claim C7, as stated, fails. It says that the result is a function of the registration
  data, the end date and the validity constant alone. \<open>datetime.fromtimestamp\<close> answers
  in the local time of the host, so the zone rule of the host is an input too: the same
  registration data and end date give \<open>is_current = False\<close> on a host in UTC and
  \<open>is_current = True\<close> on a host in Tokyo, with different dates.
\<close>

theorem zone_changes_output:
  "process_waiver_data zone_utc [reg_alice_boundary] cutoff_2024_06_01
     = Inr [[(''wf_email'', PStr ''''), (''eb_email'', PStr ''alice@x.com''),
             (''eb_first_name'', PStr ''Alice''), (''eb_last_name'', PStr ''A''),
             (''dates'', PList [PDatetime 63821260800000000]), (''is_current'', PBool False)]]
   \<and> process_waiver_data zone_tokyo [reg_alice_boundary] cutoff_2024_06_01
     = Inr [[(''wf_email'', PStr ''''), (''eb_email'', PStr ''alice@x.com''),
             (''eb_first_name'', PStr ''Alice''), (''eb_last_name'', PStr ''A''),
             (''dates'', PList [PDatetime 63821293200000000]), (''is_current'', PBool True)]]
   \<and> process_waiver_data zone_utc [reg_alice_boundary] cutoff_2024_06_01
     \<noteq> process_waiver_data zone_tokyo [reg_alice_boundary] cutoff_2024_06_01"
  by code_simp

lemma fromtimestamp_zone:
  assumes "\<And>t. timestamp_of v = Some t \<Longrightarrow> tz1 t = tz2 t"
  shows "fromtimestamp tz1 v = fromtimestamp tz2 v"
  using assms by (cases "timestamp_of v") (simp_all add: fromtimestamp_def)

lemma scan_waivers_zone:
  assumes "\<forall>w \<in> set ws. \<forall>t. waiver_timestamp w = Some t \<longrightarrow> tz1 t = tz2 t"
  shows "scan_waivers tz1 end_date ws st = scan_waivers tz2 end_date ws st"
  using assms
proof (induction ws arbitrary: st)
  case Nil
  show ?case by simp
next
  case (Cons w ws)
  show ?case
  proof (cases "subscript w ''received_at''")
    case (Inl e)
    then show ?thesis by simp
  next
    case (Inr v)
    have "\<And>t. timestamp_of v = Some t \<Longrightarrow> tz1 t = tz2 t"
      using Cons.prems Inr by (simp add: waiver_timestamp_def)
    then have "fromtimestamp tz1 v = fromtimestamp tz2 v"
      by (rule fromtimestamp_zone)
    moreover have "\<And>st'. scan_waivers tz1 end_date ws st' = scan_waivers tz2 end_date ws st'"
      using Cons.IH Cons.prems by simp
    ultimately show ?thesis using Inr by (simp split: sum.splits)
  qed
qed

lemma process_registration_zone:
  assumes "\<forall>w \<in> set (waivers_list reg). \<forall>t. waiver_timestamp w = Some t \<longrightarrow> tz1 t = tz2 t"
  shows "process_registration tz1 end_date reg = process_registration tz2 end_date reg"
proof (cases "waivers_of reg")
  case (Inl e)
  then show ?thesis by (simp add: process_registration_def scan_registration_def)
next
  case (Inr ws)
  then have "waivers_list reg = ws" by (simp add: waivers_list_def)
  with assms have "\<And>st. scan_waivers tz1 end_date ws st = scan_waivers tz2 end_date ws st"
    using scan_waivers_zone by blast
  then show ?thesis using Inr by (simp add: process_registration_def scan_registration_def)
qed

lemma set_map_filter: "set (List.map_filter f xs) = {y. \<exists>x \<in> set xs. f x = Some y}"
  by (induction xs) (auto simp: List.map_filter_simps split: option.splits)

text \<open>
  Claim C7, amended. The reconciliation is a function of the registration data, the end
  date, the validity constant and the zone rule of the host: two runs on the same
  registration data and end date return the same result, list or error, whenever the
  host's offset from UTC is the same in both at the received-at timestamp of every
  waiver.
\<close>

theorem output_depends_on_zone_at_timestamps:
  assumes "\<forall>t \<in> set (timestamps registration_data). tz1 t = tz2 t"
  shows "process_waiver_data tz1 registration_data end_date =
         process_waiver_data tz2 registration_data end_date"
  using assms
proof (induction registration_data)
  case Nil
  show ?case by (simp add: process_waiver_data_Nil)
next
  case (Cons reg regs)
  have "\<forall>w \<in> set (waivers_list reg). \<forall>t. waiver_timestamp w = Some t \<longrightarrow> tz1 t = tz2 t"
    using Cons.prems by (auto simp: timestamps_def set_map_filter)
  then have "process_registration tz1 end_date reg = process_registration tz2 end_date reg"
    by (rule process_registration_zone)
  moreover have "process_waiver_data tz1 regs end_date = process_waiver_data tz2 regs end_date"
    using Cons.IH Cons.prems by (simp add: timestamps_def)
  ultimately show ?case by (simp add: process_waiver_data_Cons split: sum.splits)
qed

text \<open>
  London and UTC differ in the summer of 2023 and agree at the three timestamps of the
  sample run, in the winters of 2022 and 2023: the two hosts return the same list.
\<close>

theorem output_depends_on_zone_at_timestamps_witness:
  "timestamps [reg_alice_expired, reg_alice, reg_carol_none] = [1640995200, 1640995200, 1701388800]
   \<and> zone_utc 1640995200 = zone_london 1640995200
   \<and> zone_utc 1701388800 = zone_london 1701388800
   \<and> zone_utc 1685664000 \<noteq> zone_london 1685664000
   \<and> process_waiver_data zone_london [reg_alice_expired, reg_alice, reg_carol_none] cutoff_2024_06_01
       = process_waiver_data zone_utc [reg_alice_expired, reg_alice, reg_carol_none] cutoff_2024_06_01
   \<and> process_waiver_data zone_london [reg_alice_expired, reg_alice, reg_carol_none] cutoff_2024_06_01
       = Inr [item_alice_expired, item_alice, item_carol]"
proof -
  have ts: "timestamps [reg_alice_expired, reg_alice, reg_carol_none]
              = [1640995200, 1640995200, 1701388800]"
    by code_simp
  have z1: "zone_utc 1640995200 = zone_london 1640995200" by code_simp
  have z2: "zone_utc 1701388800 = zone_london 1701388800" by code_simp
  have d: "zone_utc 1685664000 \<noteq> zone_london 1685664000" by code_simp
  have h: "\<forall>t \<in> set (timestamps [reg_alice_expired, reg_alice, reg_carol_none]).
             zone_london t = zone_utc t"
    unfolding ts using z1 z2 by simp
  have eq: "process_waiver_data zone_london [reg_alice_expired, reg_alice, reg_carol_none]
              cutoff_2024_06_01
            = process_waiver_data zone_utc [reg_alice_expired, reg_alice, reg_carol_none]
              cutoff_2024_06_01"
    by (rule output_depends_on_zone_at_timestamps [OF h])
  have "process_waiver_data zone_london [reg_alice_expired, reg_alice, reg_carol_none]
          cutoff_2024_06_01
        = Inr [item_alice_expired, item_alice, item_carol]"
    using eq sample_run by simp
  then show ?thesis
    using ts z1 z2 d eq by (intro conjI)
qed

section \<open>Properties of the report\<close>

lemma reconciled_fields:
  assumes "reconciled item"
  shows "dict_item item ''eb_email'' = Inr (PStr (str_field item ''eb_email''))"
    and "dict_item item ''eb_first_name'' = Inr (PStr (str_field item ''eb_first_name''))"
    and "dict_item item ''eb_last_name'' = Inr (PStr (str_field item ''eb_last_name''))"
    and "truthy (dict_get item ''is_current'') = (\<not> not_current item)"
  using assms
  by (auto simp: reconciled_def is_str_def is_bool_def dict_item_def dict_get_def str_field_def
                 not_current_def split: option.splits pyval.splits)

lemma reconciled_row: "reconciled item \<Longrightarrow> row_text item = Inr (table_row item)"
  by (simp add: row_text_def table_row_def reconciled_fields)

text \<open>On reconciled items the loop prints one row for each item that is not current, and ends.\<close>

lemma report_rows_reconciled:
  "\<forall>item \<in> set data. reconciled item \<Longrightarrow>
   report_rows data stdout =
     (Inr (), stdout @ concat (map (\<lambda>item. table_row item @ [CHR 0x0A]) (filter not_current data)))"
  by (induction data arbitrary: stdout)
     (simp_all add: reconciled_row reconciled_fields(4) print_def)

lemma invalid_count:
  "\<forall>item \<in> set data. reconciled item \<Longrightarrow>
   (\<Sum>item \<leftarrow> filter (\<lambda>item. \<not> truthy (dict_get item ''is_current'')) data. (1::int))
     = int (length (filter not_current data))"
  by (induction data) (simp_all add: reconciled_fields(4))

lemma str_int_nat: "str_int (int n) = str_nat n"
  by (simp add: str_int_def)

text \<open>What the reconciliation returns is reconciled, and stays so when its dates are formatted.\<close>

lemma process_registration_reconciled:
  "process_registration tz end_date reg = Inr item \<Longrightarrow> reconciled item"
  by (erule process_registration_item) (simp add: reconciled_def is_str_def is_bool_def)

lemma process_waiver_data_reconciled:
  assumes "process_waiver_data tz regs end_date = Inr out"
  shows "\<forall>item \<in> set out. reconciled item"
proof
  fix item
  assume "item \<in> set out"
  then obtain i where i: "i < length out" and it: "item = out ! i"
    by (auto simp: in_set_conv_nth)
  have "process_registration tz end_date (regs ! i) = Inr (out ! i)"
    using process_waiver_data_items [OF assms] i by (simp add: list_all2_conv_all_nth)
  then show "reconciled item"
    unfolding it by (rule process_registration_reconciled)
qed

text \<open>
  Claim C8. For every reconciled sequence of \<open>n\<close> registrants of which exactly \<open>k\<close> have
  \<open>is_current\<close> false, the console report prints the count line
  \<open>Found k invalid or missing waivers out of n waivers.\<close> (after an empty line), the
  two heading lines, and then one row with the email, the first name and the last name of
  each of those \<open>k\<close> registrants, in sequence order, and nothing else.
\<close>

theorem report_counts_and_lists_invalid:
  assumes "\<forall>item \<in> set data. reconciled item"
    and "n = length data"
    and "k = length (filter not_current data)"
  shows "report_to_console data stdout =
           (Inr (),
            stdout @ [CHR 0x0A] @ ''Found '' @ str_nat k @ '' invalid or missing waivers out of ''
              @ str_nat n @ '' waivers.'' @ [CHR 0x0A]
              @ ''Invalid or missing waivers:'' @ [CHR 0x0A]
              @ table_header @ [CHR 0x0A]
              @ concat (map (\<lambda>item. table_row item @ [CHR 0x0A]) (filter not_current data)))"
  using assms
  by (simp add: report_to_console_def Let_def invalid_count str_int_nat report_rows_reconciled
                print_def table_header_def)

text \<open>Three reconciled registrants of whom two are not current: Alice, expired, and Carol.\<close>

theorem report_counts_and_lists_invalid_witness:
  "reconciled item_alice_expired \<and> reconciled item_alice \<and> reconciled item_carol
   \<and> (3::nat) = length [item_alice_expired, item_alice, item_carol]
   \<and> (2::nat) = length (filter not_current [item_alice_expired, item_alice, item_carol])
   \<and> report_to_console [item_alice_expired, item_alice, item_carol] []
       = (Inr (),
          [CHR 0x0A] @ ''Found 2 invalid or missing waivers out of 3 waivers.'' @ [CHR 0x0A]
          @ ''Invalid or missing waivers:'' @ [CHR 0x0A]
          @ ''Email                          Firstname       Lastname       '' @ [CHR 0x0A]
          @ ''alice@x.com                    Alice           A              '' @ [CHR 0x0A]
          @ ''carol@x.com                    Carol           C              '' @ [CHR 0x0A])"
proof -
  have r1: "reconciled item_alice_expired" by code_simp
  have r2: "reconciled item_alice" by code_simp
  have r3: "reconciled item_carol" by code_simp
  have h1: "\<forall>item \<in> set [item_alice_expired, item_alice, item_carol]. reconciled item"
    using r1 r2 r3 by simp
  have h2: "(3::nat) = length [item_alice_expired, item_alice, item_carol]" by simp
  have h3: "(2::nat) = length (filter not_current [item_alice_expired, item_alice, item_carol])"
    by code_simp
  have e: "[] @ [CHR 0x0A] @ ''Found '' @ str_nat 2 @ '' invalid or missing waivers out of ''
              @ str_nat 3 @ '' waivers.'' @ [CHR 0x0A]
              @ ''Invalid or missing waivers:'' @ [CHR 0x0A]
              @ table_header @ [CHR 0x0A]
              @ concat (map (\<lambda>item. table_row item @ [CHR 0x0A])
                  (filter not_current [item_alice_expired, item_alice, item_carol]))
     = [CHR 0x0A] @ ''Found 2 invalid or missing waivers out of 3 waivers.'' @ [CHR 0x0A]
          @ ''Invalid or missing waivers:'' @ [CHR 0x0A]
          @ ''Email                          Firstname       Lastname       '' @ [CHR 0x0A]
          @ ''alice@x.com                    Alice           A              '' @ [CHR 0x0A]
          @ ''carol@x.com                    Carol           C              '' @ [CHR 0x0A]"
    by code_simp
  have r: "report_to_console [item_alice_expired, item_alice, item_carol] []
       = (Inr (),
          [CHR 0x0A] @ ''Found 2 invalid or missing waivers out of 3 waivers.'' @ [CHR 0x0A]
          @ ''Invalid or missing waivers:'' @ [CHR 0x0A]
          @ ''Email                          Firstname       Lastname       '' @ [CHR 0x0A]
          @ ''alice@x.com                    Alice           A              '' @ [CHR 0x0A]
          @ ''carol@x.com                    Carol           C              '' @ [CHR 0x0A])"
    using report_counts_and_lists_invalid [OF h1 h2 h3, of "[]"] unfolding e .
  show ?thesis
    using r1 r2 r3 h2 h3 r by (intro conjI)
qed

section \<open>Properties of the date formatting\<close>

lemma truthy_dates_key:
  "truthy (dict_get item ''dates'') \<Longrightarrow> ''dates'' \<in> fst ` set item"
proof -
  assume "truthy (dict_get item ''dates'')"
  then have "map_of item ''dates'' \<noteq> None"
    by (auto simp: dict_get_def split: option.splits)
  then show ?thesis by (simp add: map_of_eq_None_iff)
qed

lemma prepare_item_falsy:
  "\<not> truthy (dict_get item ''dates'') \<Longrightarrow> prepare_item strftime item = Inr item"
  by (simp add: prepare_item_def)

text \<open>
  One pass of the loop body leaves every key but \<open>dates\<close> as it was, keeps the keys and
  their order, and leaves an item without dates as it was.
\<close>

lemma prepare_item_frame:
  assumes "prepare_item strftime item = Inr item'"
  shows "k \<noteq> ''dates'' \<Longrightarrow> map_of item' k = map_of item k"
    and "map fst item' = map fst item"
    and "\<not> truthy (dict_get item ''dates'') \<Longrightarrow> item' = item"
proof -
  show "\<not> truthy (dict_get item ''dates'') \<Longrightarrow> item' = item"
    using assms by (simp add: prepare_item_def)
  show "k \<noteq> ''dates'' \<Longrightarrow> map_of item' k = map_of item k"
    using assms
    by (auto simp: prepare_item_def update_conv' split: if_splits sum.splits)
  show "map fst item' = map fst item"
  proof (cases "truthy (dict_get item ''dates'')")
    case False
    then show ?thesis using assms by (simp add: prepare_item_def)
  next
    case True
    from truthy_dates_key [OF True]
    have "\<And>v. map fst (AList.update ''dates'' v item) = map fst item"
      by (simp add: update_keys)
    then show ?thesis
      using assms True by (auto simp: prepare_item_def split: sum.splits)
  qed
qed

lemma format_dates_datetimes:
  "list_all is_datetime ds \<Longrightarrow>
   format_dates strftime ds =
     Inr (map (\<lambda>d. case d of PDatetime t \<Rightarrow> PStr (strftime t) | _ \<Rightarrow> d) ds)"
proof (induction ds)
  case Nil
  show ?case by simp
next
  case (Cons d ds)
  then obtain t where "d = PDatetime t"
    by (cases d) (simp_all add: is_datetime_def)
  with Cons show ?case by simp
qed

lemma prepare_item_formattable:
  assumes "formattable item"
  obtains item' where "prepare_item strftime item = Inr item'"
    and "dict_get item' ''dates'' = formatted strftime (dict_get item ''dates'')"
proof (cases "truthy (dict_get item ''dates'')")
  case False
  have "formatted strftime (dict_get item ''dates'') = dict_get item ''dates''"
    using False by (cases "dict_get item ''dates''") (simp_all add: formatted_def)
  with False that [of item] show ?thesis by (simp add: prepare_item_falsy)
next
  case True
  with assms obtain ds where ds: "dict_get item ''dates'' = PList ds" and dt: "list_all is_datetime ds"
    by (auto simp: formattable_def split: pyval.splits)
  let ?strs = "map (\<lambda>d. case d of PDatetime t \<Rightarrow> PStr (strftime t) | _ \<Rightarrow> d) ds"
  have "prepare_item strftime item = Inr (AList.update ''dates'' (PList ?strs) item)"
    using True ds format_dates_datetimes [OF dt] by (simp add: prepare_item_def)
  moreover have "dict_get (AList.update ''dates'' (PList ?strs) item) ''dates''
                   = formatted strftime (dict_get item ''dates'')"
    using ds by (simp add: dict_get_def update_conv' formatted_def)
  ultimately show ?thesis using that by blast
qed

lemma prepare_item_reconciled:
  assumes "prepare_item strftime item = Inr item'" and "reconciled item"
  shows "reconciled item'"
  using assms(2) prepare_item_frame(1) [OF assms(1)]
  by (simp add: reconciled_def)

text \<open>The same four facts for the whole loop, whether it ends or raises.\<close>

lemma prepare_loop_frame:
  assumes "prepare_loop strftime data st = (r, st')"
  shows "a \<notin> set data \<Longrightarrow> st' a = st a"
    and "k \<noteq> ''dates'' \<Longrightarrow> map_of (st' a) k = map_of (st a) k"
    and "map fst (st' a) = map fst (st a)"
    and "\<not> truthy (dict_get (st a) ''dates'') \<Longrightarrow> st' a = st a"
  using assms
proof (induction data arbitrary: st)
  case Nil
  { case 1 then show ?case by simp }
  { case 2 then show ?case by simp }
  { case 3 then show ?case by simp }
  { case 4 then show ?case by simp }
next
  case (Cons item rest)
  { case 1
    show ?case
    proof (cases "prepare_item strftime (st item)")
      case (Inl e)
      with 1 show ?thesis by simp
    next
      case (Inr d)
      with 1 have l: "prepare_loop strftime rest (st(item := d)) = (r, st')" by simp
      from 1(1) have "a \<notin> set rest" "a \<noteq> item" by auto
      with Cons.IH(1) [OF _ l] show ?thesis by simp
    qed }
  { case 2
    show ?case
    proof (cases "prepare_item strftime (st item)")
      case (Inl e)
      with 2 show ?thesis by simp
    next
      case (Inr d)
      with 2 have l: "prepare_loop strftime rest (st(item := d)) = (r, st')" by simp
      from Cons.IH(2) [OF 2(1) l] prepare_item_frame(1) [OF Inr 2(1)]
      show ?thesis by (cases "a = item") simp_all
    qed }
  { case 3
    show ?case
    proof (cases "prepare_item strftime (st item)")
      case (Inl e)
      with 3 show ?thesis by simp
    next
      case (Inr d)
      with 3 have l: "prepare_loop strftime rest (st(item := d)) = (r, st')" by simp
      from Cons.IH(3) [OF l] prepare_item_frame(2) [OF Inr]
      show ?thesis by (cases "a = item") simp_all
    qed }
  { case 4
    show ?case
    proof (cases "prepare_item strftime (st item)")
      case (Inl e)
      with 4 show ?thesis by simp
    next
      case (Inr d)
      with 4 have l: "prepare_loop strftime rest (st(item := d)) = (r, st')" by simp
      show ?thesis
      proof (cases "a = item")
        case True
        then have "d = st a" using prepare_item_frame(3) [OF Inr] 4(1) by simp
        then have "st(item := d) = st" using True by auto
        with Cons.IH(4) [OF _ l] 4(1) show ?thesis by simp
      next
        case False
        with Cons.IH(4) [OF _ l] 4(1) show ?thesis by simp
      qed
    qed }
qed

text \<open>
  On a list of distinct items whose dates can be formatted, the loop ends and every item
  holds its dates formatted.
\<close>

lemma prepare_loop_formattable:
  assumes "distinct data" and "\<forall>a \<in> set data. formattable (st a)"
    and "prepare_loop strftime data st = (r, st')"
  shows "r = Inr () \<and>
         (\<forall>a \<in> set data. dict_get (st' a) ''dates'' = formatted strftime (dict_get (st a) ''dates''))"
  using assms
proof (induction data arbitrary: st)
  case Nil
  then show ?case by simp
next
  case (Cons item rest)
  from Cons.prems(2) have "formattable (st item)" by simp
  then obtain d where d: "prepare_item strftime (st item) = Inr d"
    and dd: "dict_get d ''dates'' = formatted strftime (dict_get (st item) ''dates'')"
    by (rule prepare_item_formattable)
  from Cons.prems(3) d have l: "prepare_loop strftime rest (st(item := d)) = (r, st')" by simp
  have nin: "item \<notin> set rest" and dis: "distinct rest" using Cons.prems(1) by simp_all
  have fm: "\<forall>a \<in> set rest. formattable ((st(item := d)) a)"
    using Cons.prems(2) nin by auto
  from Cons.IH [OF dis fm l]
  have r: "r = Inr ()"
    and rest: "\<forall>a \<in> set rest. dict_get (st' a) ''dates''
                 = formatted strftime (dict_get ((st(item := d)) a) ''dates'')"
    by simp_all
  have "st' item = d" using prepare_loop_frame(1) [OF l nin] by simp
  with dd rest nin r show ?case by auto
qed

text \<open>
  A list that holds the same dictionary twice is another matter: the second visit finds
  strings where the first found dates, and \<open>strftime\<close> is not a method of strings.
\<close>

lemma prepare_same_item_twice:
  "fst (prepare_data_for_reporting strftime_mdY [1, 1] sample_store) = Inl AttributeError"
  by code_simp

text \<open>
  Claim C10. \<open>prepare_data_for_reporting\<close> changes nothing but the \<open>dates\<close> entry of the
  items of its list: every dictionary outside the list stays as it is; in every
  dictionary the value of every key other than \<open>dates\<close>, and the keys and their order,
  stay as they are; an item whose \<open>dates\<close> are empty or missing stays as it is
  altogether; and what it returns, when it returns, is the list it was given, same items
  in the same order. On a list of distinct items whose dates are \<open>datetime\<close> objects it
  does return, and every item then holds each of its dates as the formatted string.
\<close>

theorem prepare_changes_only_dates:
  "(\<forall>a. a \<notin> set data \<longrightarrow> snd (prepare_data_for_reporting strftime data st) a = st a) \<and>
   (\<forall>a k. k \<noteq> ''dates'' \<longrightarrow>
      map_of (snd (prepare_data_for_reporting strftime data st) a) k = map_of (st a) k) \<and>
   (\<forall>a. map fst (snd (prepare_data_for_reporting strftime data st) a) = map fst (st a)) \<and>
   (\<forall>a. \<not> truthy (dict_get (st a) ''dates'') \<longrightarrow>
      snd (prepare_data_for_reporting strftime data st) a = st a) \<and>
   (\<forall>data'. fst (prepare_data_for_reporting strftime data st) = Inr data' \<longrightarrow> data' = data) \<and>
   (distinct data \<and> (\<forall>a \<in> set data. formattable (st a)) \<longrightarrow>
      fst (prepare_data_for_reporting strftime data st) = Inr data \<and>
      (\<forall>a \<in> set data.
         dict_get (snd (prepare_data_for_reporting strftime data st) a) ''dates''
           = formatted strftime (dict_get (st a) ''dates'')))"
proof -
  obtain r st' where l: "prepare_loop strftime data st = (r, st')"
    by (cases "prepare_loop strftime data st")
  have s: "snd (prepare_data_for_reporting strftime data st) = st'"
    using l by (cases r) (simp_all add: prepare_data_for_reporting_def)
  have f: "fst (prepare_data_for_reporting strftime data st) =
             (case r of Inl e \<Rightarrow> Inl e | Inr u \<Rightarrow> Inr data)"
    using l by (cases r) (simp_all add: prepare_data_for_reporting_def)
  have 1: "\<forall>a. a \<notin> set data \<longrightarrow> st' a = st a"
    using prepare_loop_frame(1) [OF l] by blast
  have 2: "\<forall>a k. k \<noteq> ''dates'' \<longrightarrow> map_of (st' a) k = map_of (st a) k"
    using prepare_loop_frame(2) [OF l] by blast
  have 3: "\<forall>a. map fst (st' a) = map fst (st a)"
    using prepare_loop_frame(3) [OF l] by blast
  have 4: "\<forall>a. \<not> truthy (dict_get (st a) ''dates'') \<longrightarrow> st' a = st a"
    using prepare_loop_frame(4) [OF l] by blast
  have 5: "\<forall>data'. (case r of Inl e \<Rightarrow> Inl e | Inr u \<Rightarrow> Inr data) = Inr data' \<longrightarrow> data' = data"
    by (cases r) simp_all
  have 6: "distinct data \<and> (\<forall>a \<in> set data. formattable (st a)) \<longrightarrow>
             (case r of Inl e \<Rightarrow> Inl e | Inr u \<Rightarrow> Inr data) = Inr data \<and>
             (\<forall>a \<in> set data. dict_get (st' a) ''dates'' = formatted strftime (dict_get (st a) ''dates''))"
    using prepare_loop_formattable [OF _ _ l] by auto
  show ?thesis unfolding s f using 1 2 3 4 5 6 by blast
qed

text \<open>
  The three items of the sample store: the list comes back, Alice's two dates are
  formatted, Carol's item with its empty dates is untouched, and so are the email of
  Alice and the dictionary at an address outside the list.
\<close>

theorem prepare_changes_only_dates_witness:
  "distinct [0, 1, 2 :: nat]
   \<and> formattable (sample_store 0) \<and> formattable (sample_store 1) \<and> formattable (sample_store 2)
   \<and> fst (prepare_data_for_reporting strftime_mdY [0, 1, 2] sample_store) = Inr [0, 1, 2]
   \<and> dict_get (sample_store 1) ''dates''
       = PList [PDatetime 63776592000000000, PDatetime 63836985600000000]
   \<and> dict_get (snd (prepare_data_for_reporting strftime_mdY [0, 1, 2] sample_store) 1) ''dates''
       = PList [PStr ''1/1/2022'', PStr ''12/1/2023'']
   \<and> map_of (snd (prepare_data_for_reporting strftime_mdY [0, 1, 2] sample_store) 1) ''eb_email''
       = Some (PStr ''alice@x.com'')
   \<and> map fst (snd (prepare_data_for_reporting strftime_mdY [0, 1, 2] sample_store) 1)
       = [''wf_email'', ''eb_email'', ''eb_first_name'', ''eb_last_name'', ''dates'', ''is_current'']
   \<and> dict_get (sample_store 2) ''dates'' = PList []
   \<and> snd (prepare_data_for_reporting strftime_mdY [0, 1, 2] sample_store) 2 = sample_store 2
   \<and> (7::nat) \<notin> set [0, 1, 2]
   \<and> snd (prepare_data_for_reporting strftime_mdY [0, 1, 2] sample_store) 7 = sample_store 7"
proof -
  let ?p = "prepare_data_for_reporting strftime_mdY [0, 1, 2] sample_store"
  note T = prepare_changes_only_dates [of "[0, 1, 2]" strftime_mdY sample_store]
  have d: "distinct [0, 1, 2 :: nat]" by simp
  have f0: "formattable (sample_store 0)" by code_simp
  have f1: "formattable (sample_store 1)" by code_simp
  have f2: "formattable (sample_store 2)" by code_simp
  have fm: "\<forall>a \<in> set [0, 1, 2]. formattable (sample_store a)"
    using f0 f1 f2 by simp
  have m1: "(1::nat) \<in> set [0, 1, 2]" by simp
  have n7: "(7::nat) \<notin> set [0, 1, 2]" by simp
  have ne: "''eb_email'' \<noteq> ''dates''" by simp
  have d1: "dict_get (sample_store 1) ''dates''
              = PList [PDatetime 63776592000000000, PDatetime 63836985600000000]"
    by code_simp
  have d2: "dict_get (sample_store 2) ''dates'' = PList []" by code_simp
  have e1: "map_of (sample_store 1) ''eb_email'' = Some (PStr ''alice@x.com'')" by code_simp
  have k1: "map fst (sample_store 1)
              = [''wf_email'', ''eb_email'', ''eb_first_name'', ''eb_last_name'', ''dates'', ''is_current'']"
    by code_simp
  have fv: "formatted strftime_mdY (PList [PDatetime 63776592000000000, PDatetime 63836985600000000])
              = PList [PStr ''1/1/2022'', PStr ''12/1/2023'']"
    by code_simp
  note T1 = T [THEN conjunct1, rule_format]
  note T2 = T [THEN conjunct2, THEN conjunct1, rule_format]
  note T3 = T [THEN conjunct2, THEN conjunct2, THEN conjunct1, rule_format]
  note T4 = T [THEN conjunct2, THEN conjunct2, THEN conjunct2, THEN conjunct1, rule_format]
  note T6 = T [THEN conjunct2, THEN conjunct2, THEN conjunct2, THEN conjunct2, THEN conjunct2,
               THEN mp, OF conjI [OF d fm]]
  have c1: "fst ?p = Inr [0, 1, 2]"
    by (rule T6 [THEN conjunct1])
  have "dict_get (snd ?p 1) ''dates'' = formatted strftime_mdY (dict_get (sample_store 1) ''dates'')"
    by (rule T6 [THEN conjunct2, THEN bspec, OF m1])
  then have c2: "dict_get (snd ?p 1) ''dates'' = PList [PStr ''1/1/2022'', PStr ''12/1/2023'']"
    unfolding d1 fv .
  have "map_of (snd ?p 1) ''eb_email'' = map_of (sample_store 1) ''eb_email''"
    by (rule T2 [OF ne])
  then have c3: "map_of (snd ?p 1) ''eb_email'' = Some (PStr ''alice@x.com'')"
    unfolding e1 .
  have "map fst (snd ?p 1) = map fst (sample_store 1)"
    by (rule T3)
  then have c4: "map fst (snd ?p 1)
       = [''wf_email'', ''eb_email'', ''eb_first_name'', ''eb_last_name'', ''dates'', ''is_current'']"
    unfolding k1 .
  have "\<not> truthy (dict_get (sample_store 2) ''dates'')"
    unfolding d2 by simp
  then have c5: "snd ?p 2 = sample_store 2"
    by (rule T4)
  have c6: "snd ?p 7 = sample_store 7"
    by (rule T1 [OF n7])
  show ?thesis
    using d f0 f1 f2 c1 d1 c2 c3 c4 d2 c5 n7 c6 by (intro conjI)
qed

end
